theory Spec2Isabelle
  imports Complex_Main "HOL-Library.AList"
begin

section \<open>Numbers\<close>

text \<open>
  The cells of a returns column are double-precision floats. They are modelled in an
  idealised way: a finite value is an exact real (no rounding, no overflow, no signed
  zero), and the three special values of IEEE 754 are kept, because the libraries the
  program calls return them instead of raising: \<open>log 0 = -inf\<close>, \<open>log x = nan\<close> for
  negative \<open>x\<close>, \<open>x / 0 = \<plusminus>inf\<close>, \<open>0 / 0 = nan\<close>.
\<close>

datatype xfloat = Fin real | PInf | NInf | NaN

fun fneg :: "xfloat \<Rightarrow> xfloat" where
  "fneg (Fin a) = Fin (- a)"
| "fneg PInf = NInf"
| "fneg NInf = PInf"
| "fneg NaN = NaN"

fun fadd :: "xfloat \<Rightarrow> xfloat \<Rightarrow> xfloat" where
  "fadd (Fin a) (Fin b) = Fin (a + b)"
| "fadd NaN _ = NaN"
| "fadd _ NaN = NaN"
| "fadd PInf NInf = NaN"
| "fadd NInf PInf = NaN"
| "fadd PInf _ = PInf"
| "fadd _ PInf = PInf"
| "fadd NInf _ = NInf"
| "fadd _ NInf = NInf"

definition fsub :: "xfloat \<Rightarrow> xfloat \<Rightarrow> xfloat" where
  "fsub a b = fadd a (fneg b)"

text \<open>
  Division. A zero divisor is the positive zero: the program only divides by a count of
  rows and by a standard deviation, neither of which is ever the negative zero.
\<close>

fun fdiv :: "xfloat \<Rightarrow> xfloat \<Rightarrow> xfloat" where
  "fdiv NaN _ = NaN"
| "fdiv _ NaN = NaN"
| "fdiv (Fin a) (Fin b) =
     (if b \<noteq> 0 then Fin (a / b)
      else if 0 < a then PInf else if a < 0 then NInf else NaN)"
| "fdiv (Fin a) _ = Fin 0"
| "fdiv PInf (Fin b) = (if 0 \<le> b then PInf else NInf)"
| "fdiv NInf (Fin b) = (if 0 \<le> b then NInf else PInf)"
| "fdiv _ _ = NaN"

fun flog :: "xfloat \<Rightarrow> xfloat" where
  "flog (Fin a) = (if 0 < a then Fin (ln a) else if a = 0 then NInf else NaN)"
| "flog PInf = PInf"
| "flog NInf = NaN"
| "flog NaN = NaN"

fun fexp :: "xfloat \<Rightarrow> xfloat" where
  "fexp (Fin a) = Fin (exp a)"
| "fexp PInf = PInf"
| "fexp NInf = Fin 0"
| "fexp NaN = NaN"

fun fsqrt :: "xfloat \<Rightarrow> xfloat" where
  "fsqrt (Fin a) = (if 0 \<le> a then Fin (sqrt a) else NaN)"
| "fsqrt PInf = PInf"
| "fsqrt NInf = NaN"
| "fsqrt NaN = NaN"

text \<open>Power with a natural exponent (the program uses 12, the variance uses 2).\<close>

fun fpow :: "xfloat \<Rightarrow> nat \<Rightarrow> xfloat" where
  "fpow (Fin a) n = Fin (a ^ n)"
| "fpow PInf n = (if n = 0 then Fin 1 else PInf)"
| "fpow NInf n = (if n = 0 then Fin 1 else if even n then PInf else NInf)"
| "fpow NaN n = (if n = 0 then Fin 1 else NaN)"

text \<open>The sum of an array, starting from zero.\<close>

definition fsum :: "xfloat list \<Rightarrow> xfloat" where
  "fsum xs = foldr fadd xs (Fin 0)"

fun is_nan :: "xfloat \<Rightarrow> bool" where
  "is_nan NaN = True"
| "is_nan _ = False"

section \<open>Tables\<close>

text \<open>
  A cell holds a number or some other Python object (a string, say), on which arithmetic
  raises \<open>TypeError\<close>. A DataFrame has an index of \<open>nrows\<close> rows and its columns by
  name, in column order. DataFrames are objects: the heap is the list of the DataFrames
  allocated so far and a reference is a position in it, so that what a call does to the
  caller's table is visible in the model. A reference a caller holds is always to an
  allocated table; the theorems say so as \<open>p < length h\<close>.
\<close>

datatype cell = Num xfloat | Obj string

datatype error = KeyError | TypeError

type_synonym series = "cell list"

record dataframe =
  nrows :: nat
  cols :: "(string \<times> series) list"

type_synonym ref = nat

type_synonym heap = "dataframe list"

text \<open>The right-hand side of a column assignment: a Series or a scalar.\<close>

datatype pyval = Series series | Scalar xfloat

text \<open>
  A statement runs on the heap and either raises or yields a value; an exception
  leaves the heap as it was when it was raised.
\<close>

type_synonym 'a prog = "heap \<Rightarrow> heap \<times> (error + 'a)"

definition exn_return :: "'a \<Rightarrow> 'a prog" where
  "exn_return x h = (h, Inr x)"

definition exn_bind :: "'a prog \<Rightarrow> ('a \<Rightarrow> 'b prog) \<Rightarrow> 'b prog" where
  "exn_bind m f h =
     (case m h of (h', Inl e) \<Rightarrow> (h', Inl e) | (h', Inr x) \<Rightarrow> f x h')"

definition exn_lift :: "error + 'a \<Rightarrow> 'a prog" where
  "exn_lift r h = (h, r)"

subsection \<open>The pandas operations the program calls\<close>

text \<open>\<open>df.copy()\<close>: a new DataFrame with the same index and a copy of the data.\<close>

definition df_copy :: "ref \<Rightarrow> ref prog" where
  "df_copy r h = (h @ [h ! r], Inr (length h))"

text \<open>\<open>df[c]\<close>: the column, or \<open>KeyError\<close> when there is none of that name.\<close>

definition df_getitem :: "ref \<Rightarrow> string \<Rightarrow> series prog" where
  "df_getitem r c h =
     (h, case map_of (cols (h ! r)) c of None \<Rightarrow> Inl KeyError | Some s \<Rightarrow> Inr s)"

text \<open>
  \<open>df[c] = v\<close>: an existing column is replaced where it stands, a new one is appended;
  a scalar is broadcast to every row of the index.
\<close>

definition df_setitem :: "ref \<Rightarrow> string \<Rightarrow> pyval \<Rightarrow> unit prog" where
  "df_setitem r c v h =
     (let d = h ! r;
          s = (case v of Series s \<Rightarrow> s | Scalar x \<Rightarrow> replicate (nrows d) (Num x))
      in (h[r := d\<lparr>cols := AList.update c s (cols d)\<rparr>], Inr ()))"

text \<open>The numbers of a column; arithmetic on any other object raises \<open>TypeError\<close>.\<close>

fun as_floats :: "series \<Rightarrow> error + xfloat list" where
  "as_floats [] = Inr []"
| "as_floats (Num x # cs) =
     (case as_floats cs of Inl e \<Rightarrow> Inl e | Inr xs \<Rightarrow> Inr (x # xs))"
| "as_floats (Obj s # cs) = Inl TypeError"

definition series_add :: "series \<Rightarrow> xfloat \<Rightarrow> error + series" where
  "series_add s k =
     (case as_floats s of Inl e \<Rightarrow> Inl e
      | Inr xs \<Rightarrow> Inr (map (\<lambda>x. Num (fadd x k)) xs))"

definition series_sub :: "series \<Rightarrow> xfloat \<Rightarrow> error + series" where
  "series_sub s k =
     (case as_floats s of Inl e \<Rightarrow> Inl e
      | Inr xs \<Rightarrow> Inr (map (\<lambda>x. Num (fsub x k)) xs))"

text \<open>\<open>np.power(s, n)\<close>, elementwise.\<close>

definition np_power :: "series \<Rightarrow> nat \<Rightarrow> error + series" where
  "np_power s n =
     (case as_floats s of Inl e \<Rightarrow> Inl e
      | Inr xs \<Rightarrow> Inr (map (\<lambda>x. Num (fpow x n)) xs))"

text \<open>\<open>np.average(a)\<close> without weights: the sum over the count, \<open>nan\<close> on an empty array.\<close>

definition np_average :: "xfloat list \<Rightarrow> xfloat" where
  "np_average xs = fdiv (fsum xs) (Fin (real (length xs)))"

text \<open>
  \<open>scipy.stats.gmean(a)\<close>: \<open>exp(average(log(a)))\<close>. On a zero or a negative value
  the logarithm warns at most and gives \<open>-inf\<close> or \<open>nan\<close>; nothing is raised.
\<close>

definition gmean :: "series \<Rightarrow> error + xfloat" where
  "gmean a =
     (case as_floats a of Inl e \<Rightarrow> Inl e
      | Inr xs \<Rightarrow> Inr (fexp (np_average (map flog xs))))"

text \<open>
  \<open>Series.mean()\<close> and \<open>Series.std()\<close> skip missing values (\<open>nan\<close>). The mean of
  nothing is \<open>nan\<close>; the standard deviation is the sample one (\<open>ddof = 1\<close>), computed
  in two passes, and is \<open>nan\<close> on fewer than two values.
\<close>

definition dropna :: "xfloat list \<Rightarrow> xfloat list" where
  "dropna xs = filter (\<lambda>x. \<not> is_nan x) xs"

definition nanmean :: "xfloat list \<Rightarrow> xfloat" where
  "nanmean xs =
     (let ys = dropna xs
      in if ys = [] then NaN else fdiv (fsum ys) (Fin (real (length ys))))"

definition nanstd :: "xfloat list \<Rightarrow> xfloat" where
  "nanstd xs =
     (let ys = dropna xs; count = length ys
      in if count \<le> 1 then NaN
         else (let avg = fdiv (fsum ys) (Fin (real count));
                   sqr = map (\<lambda>y. fpow (fsub avg y) 2) ys
               in fsqrt (fdiv (fsum sqr) (Fin (real (count - 1))))))"

definition series_mean :: "series \<Rightarrow> error + xfloat" where
  "series_mean s = (case as_floats s of Inl e \<Rightarrow> Inl e | Inr xs \<Rightarrow> Inr (nanmean xs))"

definition series_std :: "series \<Rightarrow> error + xfloat" where
  "series_std s = (case as_floats s of Inl e \<Rightarrow> Inl e | Inr xs \<Rightarrow> Inr (nanstd xs))"

section \<open>The program\<close>

definition calculate_composite_annual_return :: "ref \<Rightarrow> string \<Rightarrow> string \<Rightarrow> ref prog" where
  "calculate_composite_annual_return target_df monthly_return_data_column output_column =
     exn_bind (df_copy target_df) (\<lambda>dfr.
     exn_bind (df_getitem dfr monthly_return_data_column) (\<lambda>s0.
     exn_bind (exn_lift (series_add s0 (Fin 1))) (\<lambda>s1.
     exn_bind (df_setitem dfr output_column (Series s1)) (\<lambda>_.
     exn_bind (df_getitem dfr output_column) (\<lambda>s2.
     exn_bind (exn_lift (gmean s2)) (\<lambda>g.
     exn_bind (df_setitem dfr output_column (Scalar g)) (\<lambda>_.
     exn_bind (df_getitem dfr output_column) (\<lambda>s3.
     exn_bind (exn_lift (np_power s3 12)) (\<lambda>s4.
     exn_bind (df_setitem dfr output_column (Series s4)) (\<lambda>_.
     exn_bind (df_getitem dfr output_column) (\<lambda>s5.
     exn_bind (exn_lift (series_sub s5 (Fin 1))) (\<lambda>s6.
     exn_bind (df_setitem dfr output_column (Series s6)) (\<lambda>_.
     exn_return dfr)))))))))))))"

definition calculate_sharpe_ratio :: "ref \<Rightarrow> string \<Rightarrow> xfloat \<Rightarrow> string \<Rightarrow> ref prog" where
  "calculate_sharpe_ratio target_df returns_column risk_free_rate output_column =
     exn_bind (df_copy target_df) (\<lambda>dfr.
     exn_bind (df_getitem dfr returns_column) (\<lambda>s0.
     exn_bind (exn_lift (series_sub s0 risk_free_rate)) (\<lambda>s1.
     exn_bind (df_setitem dfr ''excess_returns'' (Series s1)) (\<lambda>_.
     exn_bind (df_getitem dfr ''excess_returns'') (\<lambda>s2.
     exn_bind (exn_lift (series_mean s2)) (\<lambda>mean_excess_return.
     exn_bind (df_getitem dfr returns_column) (\<lambda>s3.
     exn_bind (exn_lift (series_std s3)) (\<lambda>std_deviation.
     exn_bind (df_setitem dfr output_column
                 (Scalar (fdiv mean_excess_return std_deviation))) (\<lambda>_.
     exn_return dfr)))))))))"

text \<open>What the caller sees of a call: the exception raised, or the table returned.\<close>

definition returned :: "heap \<times> (error + ref) \<Rightarrow> error + dataframe" where
  "returned out = (case out of (h, Inl e) \<Rightarrow> Inl e | (h, Inr r) \<Rightarrow> Inr (h ! r))"

section \<open>The formulas as the specification words them\<close>




text \<open>
  Names for the scalars the two functions broadcast, as the program computes them from
  the numbers of the input column; lemmas \<open>car_run_ok\<close> and \<open>sharpe_run_ok\<close> below
  prove that a run yields them. In \<open>sharpe_value\<close> the flag says whether the returns
  column is the column named \<open>excess_returns\<close>: the program reads the returns column a
  second time after it has written that column.
\<close>

definition car_value :: "xfloat list \<Rightarrow> xfloat" where
  "car_value xs =
     fsub (fpow (fexp (np_average (map flog (map (\<lambda>x. fadd x (Fin 1)) xs)))) 12) (Fin 1)"

definition sharpe_value :: "bool \<Rightarrow> xfloat list \<Rightarrow> xfloat \<Rightarrow> xfloat" where
  "sharpe_value same xs rf =
     (let ex = map (\<lambda>x. fsub x rf) xs
      in fdiv (nanmean ex) (nanstd (if same then ex else xs)))"

text \<open>
  A column of what a call gave back: \<open>Some s\<close> says that the call returned a table
  and that \<open>s\<close> is its column of that name; it is \<open>None\<close> when the call raised and
  when the returned table has no such column.
\<close>

fun column_of :: "error + dataframe \<Rightarrow> string \<Rightarrow> series option" where
  "column_of (Inl e) c = None"
| "column_of (Inr d) c = map_of (cols d) c"

section \<open>Example tables\<close>

definition returns_df :: dataframe where
  "returns_df = \<lparr>nrows = 3, cols = [(''r'', [Num (Fin 0), Num (Fin 2), Num (Fin 4)])]\<rparr>"


definition total_loss_df :: dataframe where
  "total_loss_df = \<lparr>nrows = 1, cols = [(''r'', [Num (Fin (- 1))])]\<rparr>"

definition overdrawn_df :: dataframe where
  "overdrawn_df = \<lparr>nrows = 2, cols = [(''r'', [Num (Fin (- 2)), Num (Fin 1)])]\<rparr>"

definition labelled_df :: dataframe where
  "labelled_df =
     \<lparr>nrows = 2,
      cols = [(''excess_returns'', [Obj ''a'', Obj ''b'']), (''r'', [Num (Fin 3), Num (Fin 5)])]\<rparr>"

section \<open>Running the program\<close>

lemma as_floats_map_Num: "as_floats (map Num xs) = Inr xs"
  by (induction xs) simp_all

lemma as_floats_Inr_D: "as_floats s = Inr xs \<Longrightarrow> s = map Num xs"
proof (induction s arbitrary: xs rule: as_floats.induct)
  case 1
  then show ?case by simp
next
  case (2 x cs)
  then show ?case by (auto split: sum.splits)
next
  case (3 s cs)
  then show ?case by simp
qed

lemma as_floats_Inl_D: "as_floats s = Inl e \<Longrightarrow> e = TypeError"
  by (induction s arbitrary: e rule: as_floats.induct) (auto split: sum.splits)

lemma as_floats_map_Num_comp: "as_floats (map (\<lambda>x. Num (f x)) xs) = Inr (map f xs)"
  using as_floats_map_Num [of "map f xs"] by (simp add: comp_def)

lemma as_floats_replicate: "as_floats (replicate n (Num x)) = Inr (replicate n x)"
  using as_floats_map_Num [of "replicate n x"] by simp

lemma bind_copy: "exn_bind (df_copy p) f h = f (length h) (h @ [h ! p])"
  by (simp add: exn_bind_def df_copy_def)

lemma bind_getitem:
  "exn_bind (df_getitem r c) f h =
     (case map_of (cols (h ! r)) c of None \<Rightarrow> (h, Inl KeyError) | Some s \<Rightarrow> f s h)"
  by (simp add: exn_bind_def df_getitem_def split: option.splits)

lemma bind_lift:
  "exn_bind (exn_lift r) f h = (case r of Inl e \<Rightarrow> (h, Inl e) | Inr x \<Rightarrow> f x h)"
  by (simp add: exn_bind_def exn_lift_def split: sum.splits)

lemma bind_setitem_series:
  "exn_bind (df_setitem r c (Series s)) f h =
     f () (h[r := (h ! r)\<lparr>cols := AList.update c s (cols (h ! r))\<rparr>])"
  by (simp add: exn_bind_def df_setitem_def Let_def)

lemma bind_setitem_scalar:
  "exn_bind (df_setitem r c (Scalar x)) f h =
     f () (h[r := (h ! r)\<lparr>cols := AList.update c (replicate (nrows (h ! r)) (Num x)) (cols (h ! r))\<rparr>])"
  by (simp add: exn_bind_def df_setitem_def Let_def)

lemmas run_simps = bind_copy bind_getitem bind_lift bind_setitem_series bind_setitem_scalar
  exn_return_def update_conv' as_floats_map_Num_comp as_floats_replicate

lemma car_run_KeyError:
  assumes "map_of (cols (h ! p)) c = None"
  shows "calculate_composite_annual_return p c out h = (h @ [h ! p], Inl KeyError)"
  using assms
  by (simp add: calculate_composite_annual_return_def run_simps nth_append)

lemma car_run_TypeError:
  assumes "p < length h" "map_of (cols (h ! p)) c = Some s" "as_floats s = Inl e"
  shows "calculate_composite_annual_return p c out h = (h @ [h ! p], Inl TypeError)"
  using assms as_floats_Inl_D [OF assms(3)]
  by (simp add: calculate_composite_annual_return_def run_simps nth_append series_add_def)

lemma car_run_ok:
  assumes "p < length h" "map_of (cols (h ! p)) c = Some s" "as_floats s = Inr xs"
  shows "calculate_composite_annual_return p c out h =
     (h @ [(h ! p)\<lparr>cols := AList.update out
                      (replicate (nrows (h ! p)) (Num (car_value xs))) (cols (h ! p))\<rparr>],
      Inr (length h))"
  using assms
  by (simp add: calculate_composite_annual_return_def run_simps nth_append series_add_def
      series_sub_def np_power_def gmean_def car_value_def comp_def)


lemma sharpe_run_KeyError:
  assumes "map_of (cols (h ! p)) c = None"
  shows "calculate_sharpe_ratio p c rf out h = (h @ [h ! p], Inl KeyError)"
  using assms
  by (simp add: calculate_sharpe_ratio_def run_simps nth_append)

lemma sharpe_run_TypeError:
  assumes "p < length h" "map_of (cols (h ! p)) c = Some s" "as_floats s = Inl e"
  shows "calculate_sharpe_ratio p c rf out h = (h @ [h ! p], Inl TypeError)"
  using assms as_floats_Inl_D [OF assms(3)]
  by (simp add: calculate_sharpe_ratio_def run_simps nth_append series_sub_def)

lemma sharpe_run_ok:
  assumes "p < length h" "map_of (cols (h ! p)) c = Some s" "as_floats s = Inr xs"
  shows "calculate_sharpe_ratio p c rf out h =
     (h @ [(h ! p)\<lparr>cols := AList.update out
              (replicate (nrows (h ! p)) (Num (sharpe_value (c = ''excess_returns'') xs rf)))
              (AList.update ''excess_returns'' (map (\<lambda>x. Num (fsub x rf)) xs) (cols (h ! p)))\<rparr>],
      Inr (length h))"
  using assms
  by (simp add: calculate_sharpe_ratio_def run_simps nth_append series_sub_def
      series_mean_def series_std_def sharpe_value_def comp_def Let_def as_floats_map_Num)

section \<open>Arithmetic on finite values\<close>

lemma fsum_Nil: "fsum [] = Fin 0"
  by (simp add: fsum_def)

lemma fsum_Cons: "fsum (x # xs) = fadd x (fsum xs)"
  by (simp add: fsum_def)

















section \<open>The claims\<close>

lemma as_floats_reals: "as_floats (map (\<lambda>r. Num (Fin r)) rs) = Inr (map Fin rs)"
  by (rule as_floats_map_Num_comp)

lemma returned_ok: "returned (h @ [d], Inr (length h)) = Inr d"
  by (simp add: returned_def)

lemma car_returned_ok:
  assumes "p < length h" "map_of (cols (h ! p)) c = Some s" "as_floats s = Inr xs"
  shows "returned (calculate_composite_annual_return p c out h) =
     Inr ((h ! p)\<lparr>cols := AList.update out
            (replicate (nrows (h ! p)) (Num (car_value xs))) (cols (h ! p))\<rparr>)"
  by (simp only: car_run_ok [OF assms] returned_ok)

lemma sharpe_returned_ok:
  assumes "p < length h" "map_of (cols (h ! p)) c = Some s" "as_floats s = Inr xs"
  shows "returned (calculate_sharpe_ratio p c rf out h) =
     Inr ((h ! p)\<lparr>cols := AList.update out
            (replicate (nrows (h ! p)) (Num (sharpe_value (c = ''excess_returns'') xs rf)))
            (AList.update ''excess_returns'' (map (\<lambda>x. Num (fsub x rf)) xs) (cols (h ! p)))\<rparr>)"
  by (simp only: sharpe_run_ok [OF assms] returned_ok)

lemma car_column_ok:
  assumes "p < length h" "map_of (cols (h ! p)) c = Some s" "as_floats s = Inr xs"
  shows "column_of (returned (calculate_composite_annual_return p c out h)) out =
     Some (replicate (nrows (h ! p)) (Num (car_value xs)))"
  by (simp add: car_returned_ok [OF assms] update_conv')

lemma sharpe_column_ok:
  assumes "p < length h" "map_of (cols (h ! p)) c = Some s" "as_floats s = Inr xs"
  shows "column_of (returned (calculate_sharpe_ratio p c rf out h)) out =
     Some (replicate (nrows (h ! p)) (Num (sharpe_value (c = ''excess_returns'') xs rf)))"
  by (simp add: sharpe_returned_ok [OF assms] update_conv')












lemma returned_raise: "returned (h', Inl e) = Inl e"
  by (simp add: returned_def)

lemma car_returned_KeyError:
  assumes "map_of (cols (h ! p)) c = None"
  shows "returned (calculate_composite_annual_return p c out h) = Inl KeyError"
  by (simp only: car_run_KeyError [OF assms] returned_raise)

lemma sharpe_returned_KeyError:
  assumes "map_of (cols (h ! p)) c = None"
  shows "returned (calculate_sharpe_ratio p c rf out h) = Inl KeyError"
  by (simp only: sharpe_run_KeyError [OF assms] returned_raise)

lemma car_returned_TypeError:
  assumes "p < length h" "map_of (cols (h ! p)) c = Some s" "as_floats s = Inl e"
  shows "returned (calculate_composite_annual_return p c out h) = Inl TypeError"
  by (simp only: car_run_TypeError [OF assms] returned_raise)

lemma sharpe_returned_TypeError:
  assumes "p < length h" "map_of (cols (h ! p)) c = Some s" "as_floats s = Inl e"
  shows "returned (calculate_sharpe_ratio p c rf out h) = Inl TypeError"
  by (simp only: sharpe_run_TypeError [OF assms] returned_raise)

lemma car_heap:
  assumes "p < length h"
  shows "\<exists>x. fst (calculate_composite_annual_return p c out h) = h @ [x]"
proof (cases "map_of (cols (h ! p)) c")
  case None
  then show ?thesis by (simp add: car_run_KeyError)
next
  case (Some s)
  show ?thesis
  proof (cases "as_floats s")
    case (Inl e)
    then show ?thesis by (simp add: car_run_TypeError [OF assms Some])
  next
    case (Inr xs)
    then show ?thesis by (simp add: car_run_ok [OF assms Some])
  qed
qed

lemma sharpe_heap:
  assumes "p < length h"
  shows "\<exists>x. fst (calculate_sharpe_ratio p c rf out h) = h @ [x]"
proof (cases "map_of (cols (h ! p)) c")
  case None
  then show ?thesis by (simp add: sharpe_run_KeyError)
next
  case (Some s)
  show ?thesis
  proof (cases "as_floats s")
    case (Inl e)
    then show ?thesis by (simp add: sharpe_run_TypeError [OF assms Some])
  next
    case (Inr xs)
    then show ?thesis by (simp add: sharpe_run_ok [OF assms Some])
  qed
qed

text \<open>What a call gives back depends on the table it is given, not on the rest of the heap.\<close>

lemma car_returned_cong:
  assumes "p < length h" "p < length h'" "h' ! p = h ! p"
  shows "returned (calculate_composite_annual_return p c out h') =
         returned (calculate_composite_annual_return p c out h)"
proof (cases "map_of (cols (h ! p)) c")
  case None
  then show ?thesis using assms(3) by (simp add: car_returned_KeyError)
next
  case (Some s)
  then have Some': "map_of (cols (h' ! p)) c = Some s" using assms(3) by simp
  show ?thesis
  proof (cases "as_floats s")
    case (Inl e)
    then show ?thesis
      by (simp add: car_returned_TypeError [OF assms(1) Some]
          car_returned_TypeError [OF assms(2) Some'])
  next
    case (Inr xs)
    then show ?thesis
      by (simp add: car_returned_ok [OF assms(1) Some] car_returned_ok [OF assms(2) Some'] assms(3))
  qed
qed

lemma sharpe_returned_cong:
  assumes "p < length h" "p < length h'" "h' ! p = h ! p"
  shows "returned (calculate_sharpe_ratio p c rf out h') =
         returned (calculate_sharpe_ratio p c rf out h)"
proof (cases "map_of (cols (h ! p)) c")
  case None
  then show ?thesis using assms(3) by (simp add: sharpe_returned_KeyError)
next
  case (Some s)
  then have Some': "map_of (cols (h' ! p)) c = Some s" using assms(3) by simp
  show ?thesis
  proof (cases "as_floats s")
    case (Inl e)
    then show ?thesis
      by (simp add: sharpe_returned_TypeError [OF assms(1) Some]
          sharpe_returned_TypeError [OF assms(2) Some'])
  next
    case (Inr xs)
    then show ?thesis
      by (simp add: sharpe_returned_ok [OF assms(1) Some] sharpe_returned_ok [OF assms(2) Some']
          assms(3))
  qed
qed

text \<open>
  Claim C4. Neither function mutates its input table: after the call, whether it returned
  or raised, the caller's table is exactly what it was, so an output column that was
  absent from it is still absent.
\<close>

theorem input_table_not_mutated:
  assumes "p < length h"
  shows "fst (calculate_composite_annual_return p c out h) ! p = h ! p
       \<and> fst (calculate_sharpe_ratio p c' rf out' h) ! p = h ! p"
proof -
  obtain x where "fst (calculate_composite_annual_return p c out h) = h @ [x]"
    using car_heap [OF assms] by blast
  moreover obtain y where "fst (calculate_sharpe_ratio p c' rf out' h) = h @ [y]"
    using sharpe_heap [OF assms] by blast
  ultimately show ?thesis using assms by (simp add: nth_append)
qed

theorem input_table_not_mutated_witness:
  "fst (calculate_composite_annual_return 0 ''r'' ''annual'' [returns_df]) ! 0 = returns_df
   \<and> fst (calculate_sharpe_ratio 0 ''r'' (Fin 1) ''sharpe'' [returns_df]) ! 0 = returns_df
   \<and> map_of (cols returns_df) ''annual'' = None
   \<and> map_of (cols returns_df) ''sharpe'' = None"
proof -
  have h1: "(0::nat) < length [returns_df]" by simp
  have "map_of (cols returns_df) ''annual'' = None" "map_of (cols returns_df) ''sharpe'' = None"
    by (simp_all add: returns_df_def)
  with input_table_not_mutated [OF h1, of "''r''" "''annual''" "''r''" "Fin 1" "''sharpe''"]
  show ?thesis by simp
qed

text \<open>
  Claim C8. When the table has no column of the input column's name, each function
  raises the lookup failure (\<open>KeyError\<close>); no table is returned.
\<close>

theorem missing_column_raises:
  assumes "map_of (cols (h ! p)) c = None"
  shows "returned (calculate_composite_annual_return p c out h) = Inl KeyError
       \<and> returned (calculate_sharpe_ratio p c rf out' h) = Inl KeyError"
  using car_returned_KeyError [OF assms] sharpe_returned_KeyError [OF assms] by simp

theorem missing_column_raises_witness:
  "returned (calculate_composite_annual_return 0 ''monthly'' ''annual'' [returns_df]) = Inl KeyError
   \<and> returned (calculate_sharpe_ratio 0 ''monthly'' (Fin 1) ''sharpe'' [returns_df]) = Inl KeyError"
proof -
  have h1: "map_of (cols ([returns_df] ! 0)) ''monthly'' = None"
    by (simp add: returns_df_def)
  show ?thesis by (rule missing_column_raises [OF h1])
qed

text \<open>
  Claim C9. Calling a function a second time with the same table, column names and
  risk-free rate, after the first call has run, gives the same outcome: an identical
  table, or the same exception.
\<close>

theorem calls_repeatable:
  assumes "p < length h"
  shows "returned (calculate_composite_annual_return p c out
            (fst (calculate_composite_annual_return p c out h))) =
         returned (calculate_composite_annual_return p c out h)
       \<and> returned (calculate_sharpe_ratio p c' rf out'
            (fst (calculate_sharpe_ratio p c' rf out' h))) =
         returned (calculate_sharpe_ratio p c' rf out' h)"
proof -
  obtain x where x: "fst (calculate_composite_annual_return p c out h) = h @ [x]"
    using car_heap [OF assms] by blast
  obtain y where y: "fst (calculate_sharpe_ratio p c' rf out' h) = h @ [y]"
    using sharpe_heap [OF assms] by blast
  have px: "p < length (h @ [x])" and py: "p < length (h @ [y])" using assms by simp_all
  have ex: "(h @ [x]) ! p = h ! p" and ey: "(h @ [y]) ! p = h ! p"
    using assms by (simp_all add: nth_append)
  show ?thesis
    unfolding x y
    using car_returned_cong [OF assms px ex] sharpe_returned_cong [OF assms py ey] by simp
qed

theorem calls_repeatable_witness:
  "returned (calculate_composite_annual_return 0 ''r'' ''annual''
      (fst (calculate_composite_annual_return 0 ''r'' ''annual'' [returns_df]))) =
   returned (calculate_composite_annual_return 0 ''r'' ''annual'' [returns_df])
   \<and> returned (calculate_sharpe_ratio 0 ''r'' (Fin 1) ''sharpe''
      (fst (calculate_sharpe_ratio 0 ''r'' (Fin 1) ''sharpe'' [returns_df]))) =
   returned (calculate_sharpe_ratio 0 ''r'' (Fin 1) ''sharpe'' [returns_df])"
proof -
  have h1: "(0::nat) < length [returns_df]" by simp
  show ?thesis by (rule calls_repeatable [OF h1])
qed

text \<open>
  Claim C6. For valid arguments (the input column exists and holds numbers) each function
  returns a table whose output column has as many rows as the input table and holds one
  value in all of them.
\<close>

theorem output_column_broadcast:
  assumes "p < length h"
    and "map_of (cols (h ! p)) c = Some s"
    and "as_floats s = Inr xs"
  shows "(\<exists>v. column_of (returned (calculate_composite_annual_return p c out h)) out =
              Some (replicate (nrows (h ! p)) v))
       \<and> (\<exists>v. column_of (returned (calculate_sharpe_ratio p c rf out' h)) out' =
              Some (replicate (nrows (h ! p)) v))"
  using car_column_ok [OF assms] sharpe_column_ok [OF assms] by blast

theorem output_column_broadcast_witness:
  "(\<exists>v. column_of (returned (calculate_composite_annual_return 0 ''r'' ''annual'' [returns_df]))
            ''annual'' = Some [v, v, v])
   \<and> (\<exists>v. column_of (returned (calculate_sharpe_ratio 0 ''r'' (Fin 1) ''sharpe'' [returns_df]))
            ''sharpe'' = Some [v, v, v])"
proof -
  have h1: "(0::nat) < length [returns_df]" by simp
  have h2: "map_of (cols ([returns_df] ! 0)) ''r'' = Some [Num (Fin 0), Num (Fin 2), Num (Fin 4)]"
    by (simp add: returns_df_def)
  have h3: "as_floats [Num (Fin 0), Num (Fin 2), Num (Fin 4)] = Inr [Fin 0, Fin 2, Fin 4]"
    by simp
  have n: "replicate (nrows ([returns_df] ! 0)) v = [v, v, v]" for v :: cell
    by (simp add: returns_df_def numeral_3_eq_3)
  from output_column_broadcast [OF h1 h2 h3, of "''annual''" "Fin 1" "''sharpe''"]
  show ?thesis unfolding n .
qed


lemma car_total_loss_run:
  "returned (calculate_composite_annual_return 0 ''r'' ''annual'' [total_loss_df]) =
     Inr \<lparr>nrows = 1, cols = [(''r'', [Num (Fin (- 1))]), (''annual'', [Num (Fin (- 1))])]\<rparr>"
proof -
  have h1: "(0::nat) < length [total_loss_df]" by simp
  have h2: "map_of (cols ([total_loss_df] ! 0)) ''r'' = Some [Num (Fin (- 1))]"
    by (simp add: total_loss_df_def)
  have h3: "as_floats [Num (Fin (- 1))] = Inr [Fin (- 1)]"
    by simp
  have v: "car_value [Fin (- 1)] = Fin (- 1)"
    by (simp add: car_value_def np_average_def fsum_def fsub_def)
  show ?thesis
    unfolding car_returned_ok [OF h1 h2 h3]
    by (simp add: v total_loss_df_def)
qed




lemma fadd_NaN_right: "fadd x NaN = NaN"
  by (cases x) simp_all

lemma fsum_NaN: "NaN \<in> set xs \<Longrightarrow> fsum xs = NaN"
proof (induction xs)
  case Nil
  then show ?case by simp
next
  case (Cons x xs)
  show ?case
  proof (cases "x = NaN")
    case True
    then show ?thesis by (simp add: fsum_Cons)
  next
    case False
    with Cons have "fsum xs = NaN" by simp
    then show ?thesis by (simp add: fsum_Cons fadd_NaN_right)
  qed
qed

lemma fsum_NInf:
  assumes "\<forall>x\<in>set xs. x = NInf \<or> (\<exists>a. x = Fin a)"
  shows "if NInf \<in> set xs then fsum xs = NInf else (\<exists>a. fsum xs = Fin a)"
  using assms
proof (induction xs)
  case Nil
  then show ?case by (simp add: fsum_Nil)
next
  case (Cons x xs)
  then have ih: "if NInf \<in> set xs then fsum xs = NInf else (\<exists>a. fsum xs = Fin a)"
    by simp
  from Cons.prems have "x = NInf \<or> (\<exists>a. x = Fin a)" by simp
  then show ?case
  proof
    assume "x = NInf"
    with ih show ?thesis by (auto simp: fsum_Cons split: if_splits)
  next
    assume "\<exists>a. x = Fin a"
    with ih show ?thesis by (auto simp: fsum_Cons split: if_splits)
  qed
qed

lemma car_value_below:
  assumes "r \<in> set rs" "r < - 1"
  shows "car_value (map Fin rs) = NaN"
proof -
  let ?logs = "map flog (map (\<lambda>x. fadd x (Fin 1)) (map Fin rs))"
  have "flog (fadd (Fin r) (Fin 1)) = NaN" using assms(2) by simp
  then have "NaN \<in> set ?logs" using assms(1) by (force simp: image_iff)
  then have "fsum ?logs = NaN" by (rule fsum_NaN)
  then show ?thesis by (simp add: car_value_def np_average_def fsub_def)
qed

lemma car_value_total_loss:
  assumes "- 1 \<in> set rs" "\<forall>r\<in>set rs. - 1 \<le> r"
  shows "car_value (map Fin rs) = Fin (- 1)"
proof -
  let ?logs = "map flog (map (\<lambda>x. fadd x (Fin 1)) (map Fin rs))"
  have "flog (fadd (Fin (- 1)) (Fin 1)) = NInf" by simp
  then have mem: "NInf \<in> set ?logs" using assms(1) by (force simp: image_iff)
  have "\<forall>x\<in>set ?logs. x = NInf \<or> (\<exists>a. x = Fin a)"
    using assms(2) by auto
  from fsum_NInf [OF this] mem have "fsum ?logs = NInf" by simp
  moreover have "0 \<le> real (length ?logs)" by simp
  ultimately have "np_average ?logs = NInf" by (simp add: np_average_def)
  then show ?thesis by (simp add: car_value_def fsub_def)
qed

text \<open>
  Claim C5, amended. When the input column of real returns holds some \<open>r\<^sub>i \<le> -1\<close>, the
  call returns a table (it does not raise). Every row of the output column holds
  not-a-number when some return is below \<open>-1\<close>, and holds \<open>-1\<close> when the least return
  is exactly \<open>-1\<close>.
\<close>

theorem composite_annual_return_nonpositive_base:
  assumes "p < length h"
    and "map_of (cols (h ! p)) c = Some (map (\<lambda>r. Num (Fin r)) rs)"
    and "r \<in> set rs" and "r \<le> - 1"
  shows "column_of (returned (calculate_composite_annual_return p c out h)) out =
     Some (replicate (nrows (h ! p))
            (Num (if \<exists>r\<in>set rs. r < - 1 then NaN else Fin (- 1))))"
proof (cases "\<exists>r\<in>set rs. r < - 1")
  case True
  then obtain r' where "r' \<in> set rs" "r' < - 1" by blast
  then have "car_value (map Fin rs) = NaN" by (rule car_value_below)
  with True car_column_ok [OF assms(1,2) as_floats_reals] show ?thesis by simp
next
  case False
  then have all: "\<forall>r\<in>set rs. - 1 \<le> r" by auto
  with assms(3,4) have "r = - 1" by force
  with assms(3) have "- 1 \<in> set rs" by simp
  then have "car_value (map Fin rs) = Fin (- 1)" using all by (rule car_value_total_loss)
  with False car_column_ok [OF assms(1,2) as_floats_reals] show ?thesis by simp
qed

text \<open>
  Claim C5 as it is stated fails. On the one-row column \<open>[-1]\<close> the call neither raises
  nor produces not-a-number: \<open>1 + r = 0\<close>, its logarithm is \<open>-inf\<close>, the geometric mean
  is \<open>exp (-inf) = 0\<close>, and the output column holds \<open>0\<^sup>1\<^sup>2 - 1 = -1\<close>.
\<close>

theorem composite_annual_return_total_loss_counterexample:
  "returned (calculate_composite_annual_return 0 ''r'' ''annual'' [total_loss_df]) =
     Inr \<lparr>nrows = 1, cols = [(''r'', [Num (Fin (- 1))]), (''annual'', [Num (Fin (- 1))])]\<rparr>"
  by (rule car_total_loss_run)

theorem composite_annual_return_nonpositive_base_witness:
  "column_of (returned (calculate_composite_annual_return 0 ''r'' ''annual'' [overdrawn_df]))
      ''annual'' = Some [Num NaN, Num NaN]
   \<and> column_of (returned (calculate_composite_annual_return 0 ''r'' ''annual'' [total_loss_df]))
      ''annual'' = Some [Num (Fin (- 1))]"
proof -
  have a1: "(0::nat) < length [overdrawn_df]" by simp
  have a2: "map_of (cols ([overdrawn_df] ! 0)) ''r'' = Some (map (\<lambda>r. Num (Fin r)) [- 2, 1])"
    by (simp add: overdrawn_df_def)
  have a3: "(- 2 :: real) \<in> set [- 2, 1]" by simp
  have a4: "(- 2 :: real) \<le> - 1" by simp
  have b1: "(0::nat) < length [total_loss_df]" by simp
  have b2: "map_of (cols ([total_loss_df] ! 0)) ''r'' = Some (map (\<lambda>r. Num (Fin r)) [- 1])"
    by (simp add: total_loss_df_def)
  have b3: "(- 1 :: real) \<in> set [- 1]" by simp
  have b4: "(- 1 :: real) \<le> - 1" by simp
  from composite_annual_return_nonpositive_base [OF a1 a2 a3 a4, of "''annual''"]
    composite_annual_return_nonpositive_base [OF b1 b2 b3 b4, of "''annual''"]
  show ?thesis by (simp add: overdrawn_df_def total_loss_df_def numeral_2_eq_2)
qed

text \<open>
  Claim C10. When the input table already has a column \<open>excess_returns\<close>, the output
  column has another name and the returns column holds numbers, the call returns a table
  whose column \<open>excess_returns\<close> holds the returns minus the risk-free rate, whatever
  the caller had stored under that name.
\<close>

theorem sharpe_ratio_overwrites_excess_returns:
  assumes "p < length h"
    and "map_of (cols (h ! p)) ''excess_returns'' = Some old"
    and "out \<noteq> ''excess_returns''"
    and "map_of (cols (h ! p)) c = Some s"
    and "as_floats s = Inr xs"
  shows "column_of (returned (calculate_sharpe_ratio p c rf out h)) ''excess_returns'' =
     Some (map (\<lambda>x. Num (fsub x rf)) xs)"
  using assms(3) by (simp add: sharpe_returned_ok [OF assms(1,4,5)] update_conv')

theorem sharpe_ratio_overwrites_excess_returns_witness:
  "map_of (cols labelled_df) ''excess_returns'' = Some [Obj ''a'', Obj ''b'']
   \<and> column_of (returned (calculate_sharpe_ratio 0 ''r'' (Fin 1) ''sharpe'' [labelled_df]))
      ''excess_returns'' = Some [Num (Fin 2), Num (Fin 4)]"
proof -
  have h1: "(0::nat) < length [labelled_df]" by simp
  have h2: "map_of (cols ([labelled_df] ! 0)) ''excess_returns'' = Some [Obj ''a'', Obj ''b'']"
    by (simp add: labelled_df_def)
  have h3: "''sharpe'' \<noteq> ''excess_returns''" by simp
  have h4: "map_of (cols ([labelled_df] ! 0)) ''r'' = Some [Num (Fin 3), Num (Fin 5)]"
    by (simp add: labelled_df_def)
  have h5: "as_floats [Num (Fin 3), Num (Fin 5)] = Inr [Fin 3, Fin 5]" by simp
  from sharpe_ratio_overwrites_excess_returns [OF h1 h2 h3 h4 h5, of "Fin 1"] h2
  show ?thesis by (simp add: fsub_def)
qed


end
